theory Spec2Isabelle
  imports Complex_Main
begin

section \<open>The data cleaner of scripts/cleaner.py\<close>

text \<open>
  The class \<open>DataCleaner\<close> is a collection of transformations of a pandas DataFrame.
  The embedding keeps the DataFrame column by column, as pandas stores it, and writes
  out the behaviour of every pandas and numpy call the methods make (pandas 1.x, the
  version whose \<open>fillna(method=...)\<close> and cached \<open>df[col]\<close> the source relies on).

  A finite float64 or int64 entry is \<open>Num r\<close> with the rational \<open>r\<close> it denotes, the
  infinities of float64 are \<open>PInf\<close> and \<open>NInf\<close>, and the missing value of every dtype
  (NaN, None, NaT) is \<open>Null\<close>. \<open>Method\<close> is a Python bound-method object stored as a
  cell (a function reference, not a number).

  What float64 arithmetic and the statistics of pandas compute depends on rounding,
  overflow and the order of summation. The embedding does not fix it: the methods that
  compute with numbers take the arithmetic as a parameter (\<open>float_ops\<close>), and what is
  proved of them for every frame is proved for every such arithmetic. The instance
  \<open>exact\<close> computes without rounding and overflow; it is what pandas computes on a
  column of finite numbers when every intermediate value is a float64, and it is used to
  evaluate the methods on concrete frames of that kind.

  Every method is wrapped by \<open>log_decorator\<close>, which logs and re-raises: it changes
  neither a result nor an error, and the embedding leaves the log out. An exception is
  a value \<open>Inl e\<close>.
\<close>

subsection \<open>DataFrames\<close>

datatype cell = Null | Num rat | PInf | NInf | Str string | Time int | Method

text \<open>The dtypes that \<open>select_dtypes\<close> tells apart: \<open>number\<close>, \<open>object\<close>, \<open>datetime64[ns]\<close>.\<close>

datatype dtype = Number | Object | Datetime

record column =
  dtype :: dtype
  cells :: "cell list"

record dataset =
  index :: "nat list"
  cols :: "(string \<times> column) list"

datatype error = KeyError | TypeError | UnknownMethod

text \<open>
  A numeric column holds numbers, infinities and NaN, a datetime column timestamps and
  NaT; an object column holds any Python object. Column names are unique and every column is as
  long as the index.
\<close>

fun cell_ok :: "dtype \<Rightarrow> cell \<Rightarrow> bool" where
  "cell_ok Number (Num r) = True"
| "cell_ok Number PInf = True"
| "cell_ok Number NInf = True"
| "cell_ok Number Null = True"
| "cell_ok Number v = False"
| "cell_ok Datetime (Time t) = True"
| "cell_ok Datetime Null = True"
| "cell_ok Datetime v = False"
| "cell_ok Object v = True"

definition column_ok :: "nat \<Rightarrow> column \<Rightarrow> bool" where
  "column_ok n c = (length (cells c) = n \<and> list_all (cell_ok (dtype c)) (cells c))"

definition wf :: "dataset \<Rightarrow> bool" where
  "wf d = (distinct (map fst (cols d)) \<and>
           list_all (column_ok (length (index d))) (map snd (cols d)))"

text \<open>The rows of a frame: row \<open>i\<close> lists the \<open>i\<close>-th cell of every column, left to right.\<close>

fun rows_of :: "nat \<Rightarrow> (string \<times> column) list \<Rightarrow> cell list list" where
  "rows_of n [] = replicate n []"
| "rows_of n (nc # ncs) = map2 (#) (cells (snd nc)) (rows_of n ncs)"

definition rows :: "dataset \<Rightarrow> cell list list" where
  "rows d = rows_of (length (index d)) (cols d)"

text \<open>\<open>df[mask]\<close>: boolean indexing keeps the positions where the mask is true.\<close>

fun select :: "bool list \<Rightarrow> 'a list \<Rightarrow> 'a list" where
  "select (b # bs) (x # xs) = (if b then x # select bs xs else select bs xs)"
| "select bs xs = []"

definition take_rows :: "bool list \<Rightarrow> dataset \<Rightarrow> dataset" where
  "take_rows m d =
     \<lparr>index = select m (index d),
      cols = map (\<lambda>nc. (fst nc, (snd nc)\<lparr>cells := select m (cells (snd nc))\<rparr>)) (cols d)\<rparr>"

text \<open>\<open>df[col]\<close> raises KeyError for an absent name; \<open>df[col] = values\<close> replaces the
  column where it stands, or appends a new one.\<close>

definition get_col :: "dataset \<Rightarrow> string \<Rightarrow> column option" where
  "get_col d col = map_of (cols d) col"

fun put :: "string \<Rightarrow> column \<Rightarrow> (string \<times> column) list \<Rightarrow> (string \<times> column) list" where
  "put col c [] = [(col, c)]"
| "put col c (nc # ncs) = (if fst nc = col then (col, c) # ncs else nc # put col c ncs)"

definition set_col :: "string \<Rightarrow> column \<Rightarrow> dataset \<Rightarrow> dataset" where
  "set_col col c d = d\<lparr>cols := put col c (cols d)\<rparr>"

subsection \<open>drop_duplicate\<close>

text \<open>
  \<open>DataFrame.duplicated(keep='first')\<close> marks a row that equals an earlier row (missing
  values compare equal to each other there). \<open>drop_duplicates\<close> returns early on an
  empty frame (no column or no row) and otherwise keeps the unmarked rows.
\<close>

fun duplicated :: "'a list \<Rightarrow> 'a list \<Rightarrow> bool list" where
  "duplicated seen [] = []"
| "duplicated seen (r # rs) = (r \<in> set seen) # duplicated (r # seen) rs"

definition empty_df :: "dataset \<Rightarrow> bool" where
  "empty_df d = (cols d = [] \<or> index d = [])"

definition drop_duplicate :: "dataset \<Rightarrow> dataset" where
  "drop_duplicate d =
     (if empty_df d then d else take_rows (map Not (duplicated [] (rows d))) d)"

subsection \<open>Column classification\<close>

text \<open>\<open>select_dtypes(include=['number'])\<close> and
  \<open>select_dtypes(include=['object', 'datetime64[ns]'])\<close>, as lists of column names.\<close>

definition get_numerical_columns :: "dataset \<Rightarrow> string list" where
  "get_numerical_columns d = map fst (filter (\<lambda>nc. dtype (snd nc) = Number) (cols d))"

definition get_categorical_columns :: "dataset \<Rightarrow> string list" where
  "get_categorical_columns d =
     map fst (filter (\<lambda>nc. dtype (snd nc) = Object \<or> dtype (snd nc) = Datetime) (cols d))"

subsection \<open>percent_missing_column\<close>

definition isnull :: "cell \<Rightarrow> bool" where
  "isnull v = (v = Null)"

text \<open>\<open>round(x, 2)\<close> of a numpy float: \<open>rint(x * 100) / 100\<close>, where \<open>rint\<close> rounds
  to the nearest integer and a tie to the even one.\<close>

definition rint :: "rat \<Rightarrow> int" where
  "rint x =
     (let f = \<lfloor>x\<rfloor>; r = x - of_int f
      in if r < 1 / 2 then f else if 1 / 2 < r then f + 1
         else if even f then f else f + 1)"

definition round2 :: "rat \<Rightarrow> rat" where
  "round2 x = of_int (rint (x * 100)) / 100"

text \<open>
  \<open>missing_count\<close> is a numpy integer, so the division by a zero \<open>col_len\<close> does not
  raise: it is 0/0, NaN, and \<open>round\<close> keeps NaN.
\<close>

definition percent_missing_column :: "dataset \<Rightarrow> string \<Rightarrow> error + rat option" where
  "percent_missing_column d col =
     (case get_col d col of
        None \<Rightarrow> Inl KeyError
      | Some c \<Rightarrow>
          (let col_len = length (cells c);
               missing_count = length (filter isnull (cells c))
           in Inr (if col_len = 0 then None
                   else Some (round2 (of_nat missing_count / of_nat col_len * 100)))))"

subsection \<open>Statistics of a column\<close>

text \<open>
  The statistics of the finite numbers of a column, computed without rounding: they skip
  missing values (\<open>skipna=True\<close>), and of no number at all they are NaN, here \<open>None\<close>.
  They are the statistics of the arithmetic \<open>exact\<close> below.
\<close>

fun nums :: "cell list \<Rightarrow> rat list" where
  "nums [] = []"
| "nums (Num r # vs) = r # nums vs"
| "nums (v # vs) = nums vs"

definition cell_of :: "rat option \<Rightarrow> cell" where
  "cell_of x = (case x of None \<Rightarrow> Null | Some r \<Rightarrow> Num r)"

definition mean :: "cell list \<Rightarrow> rat option" where
  "mean vs =
     (let xs = nums vs
      in if xs = [] then None else Some (sum_list xs / of_nat (length xs)))"

definition median :: "cell list \<Rightarrow> rat option" where
  "median vs =
     (let xs = sort (nums vs); n = length xs
      in if n = 0 then None
         else if odd n then Some (xs ! (n div 2))
         else Some ((xs ! (n div 2 - 1) + xs ! (n div 2)) / 2))"

text \<open>\<open>Series.quantile(q)\<close> interpolates linearly between the two order statistics
  around position \<open>(n - 1) * q\<close>.\<close>

definition interp :: "rat list \<Rightarrow> rat \<Rightarrow> rat" where
  "interp xs h =
     (let i = nat \<lfloor>h\<rfloor>; g = h - of_int \<lfloor>h\<rfloor>;
          a = xs ! i; b = xs ! (min (i + 1) (length xs - 1))
      in a + (b - a) * g)"

definition quantile :: "rat \<Rightarrow> cell list \<Rightarrow> rat option" where
  "quantile q vs =
     (let xs = sort (nums vs); n = length xs
      in if n = 0 then None else Some (interp xs (of_nat (n - 1) * q)))"

text \<open>
  \<open>Series.mode()\<close>: the most frequent values that are not missing, sorted when they can
  be compared with each other and in order of first appearance otherwise; \<open>mode()[0]\<close>
  raises KeyError when there is none.
\<close>

fun str_less :: "string \<Rightarrow> string \<Rightarrow> bool" where
  "str_less [] [] = False"
| "str_less [] (b # bs) = True"
| "str_less (a # as) [] = False"
| "str_less (a # as) (b # bs) =
     ((of_char a :: nat) < of_char b \<or> (a = b \<and> str_less as bs))"

text \<open>The order of float64 on the numbers and the infinities; a comparison with NaN,
  or with anything that is no number, is false.\<close>

fun fless :: "cell \<Rightarrow> cell \<Rightarrow> bool" where
  "fless (Num a) (Num b) = (a < b)"
| "fless (Num a) PInf = True"
| "fless NInf (Num b) = True"
| "fless NInf PInf = True"
| "fless v w = False"

fun is_num :: "cell \<Rightarrow> bool" where
  "is_num (Num r) = True"
| "is_num PInf = True"
| "is_num NInf = True"
| "is_num v = False"

definition fle :: "cell \<Rightarrow> cell \<Rightarrow> bool" where
  "fle v w = (is_num v \<and> is_num w \<and> \<not> fless w v)"

fun cell_less :: "cell \<Rightarrow> cell \<Rightarrow> bool" where
  "cell_less (Str a) (Str b) = str_less a b"
| "cell_less (Time a) (Time b) = (a < b)"
| "cell_less v w = fless v w"

fun is_str :: "cell \<Rightarrow> bool" where
  "is_str (Str x) = True"
| "is_str v = False"

fun is_time :: "cell \<Rightarrow> bool" where
  "is_time (Time t) = True"
| "is_time v = False"

definition sortable :: "cell list \<Rightarrow> bool" where
  "sortable vs = (list_all is_num vs \<or> list_all is_str vs \<or> list_all is_time vs)"

definition modes :: "cell list \<Rightarrow> cell list" where
  "modes vs =
     (let xs = filter (\<lambda>v. \<not> isnull v) vs;
          k = fold max (map (count_list xs) xs) 0
      in rev (remdups (rev (filter (\<lambda>v. count_list xs v = k) xs))))"

definition least :: "cell \<Rightarrow> cell list \<Rightarrow> cell" where
  "least m ms = fold (\<lambda>v w. if cell_less v w then v else w) ms m"

definition mode0 :: "cell list \<Rightarrow> cell option" where
  "mode0 vs =
     (case modes vs of
        [] \<Rightarrow> None
      | m # ms \<Rightarrow> Some (if sortable (m # ms) then least m ms else m))"

subsection \<open>Float arithmetic\<close>

text \<open>
  The arithmetic of numpy and the statistics of pandas that the methods call. A result
  is a float64: a number, an infinity or NaN.
  \<^item> \<open>to_float r\<close> is the float64 that the number \<open>r\<close> of an int64 column becomes in a
    comparison with a float and in an array of floats (a float64 is left as it is);
  \<^item> \<open>fadd\<close>, \<open>fsub\<close>, \<open>fmul\<close> are \<open>+\<close>, \<open>-\<close>, \<open>*\<close> on float64;
  \<^item> \<open>mean_of\<close>, \<open>median_of\<close>, \<open>quantile_of q\<close> are \<open>Series.mean()\<close>,
    \<open>Series.median()\<close> and \<open>Series.quantile(q)\<close>.
\<close>

record float_ops =
  to_float :: "rat \<Rightarrow> rat"
  fadd :: "cell \<Rightarrow> cell \<Rightarrow> cell"
  fsub :: "cell \<Rightarrow> cell \<Rightarrow> cell"
  fmul :: "cell \<Rightarrow> cell \<Rightarrow> cell"
  mean_of :: "cell list \<Rightarrow> cell"
  median_of :: "cell list \<Rightarrow> cell"
  quantile_of :: "rat \<Rightarrow> cell list \<Rightarrow> cell"

text \<open>The arithmetic without rounding and overflow: the sum, difference and product of
  numbers, with the rules of IEEE 754 for the infinities and NaN.\<close>

fun ext_neg :: "cell \<Rightarrow> cell" where
  "ext_neg (Num a) = Num (- a)"
| "ext_neg PInf = NInf"
| "ext_neg NInf = PInf"
| "ext_neg v = Null"

fun ext_add :: "cell \<Rightarrow> cell \<Rightarrow> cell" where
  "ext_add (Num a) (Num b) = Num (a + b)"
| "ext_add (Num a) PInf = PInf"
| "ext_add (Num a) NInf = NInf"
| "ext_add PInf (Num b) = PInf"
| "ext_add PInf PInf = PInf"
| "ext_add NInf (Num b) = NInf"
| "ext_add NInf NInf = NInf"
| "ext_add v w = Null"

definition ext_sub :: "cell \<Rightarrow> cell \<Rightarrow> cell" where
  "ext_sub v w = ext_add v (ext_neg w)"

definition inf_of :: "bool \<Rightarrow> cell" where
  "inf_of positive = (if positive then PInf else NInf)"

fun ext_mul :: "cell \<Rightarrow> cell \<Rightarrow> cell" where
  "ext_mul (Num a) (Num b) = Num (a * b)"
| "ext_mul (Num a) PInf = (if a = 0 then Null else inf_of (0 < a))"
| "ext_mul (Num a) NInf = (if a = 0 then Null else inf_of (a < 0))"
| "ext_mul PInf (Num b) = (if b = 0 then Null else inf_of (0 < b))"
| "ext_mul NInf (Num b) = (if b = 0 then Null else inf_of (b < 0))"
| "ext_mul PInf PInf = PInf"
| "ext_mul PInf NInf = NInf"
| "ext_mul NInf PInf = NInf"
| "ext_mul NInf NInf = PInf"
| "ext_mul v w = Null"

definition exact :: float_ops where
  "exact =
     \<lparr>to_float = (\<lambda>r. r),
      fadd = ext_add, fsub = ext_sub, fmul = ext_mul,
      mean_of = (\<lambda>vs. cell_of (mean vs)),
      median_of = (\<lambda>vs. cell_of (median vs)),
      quantile_of = (\<lambda>q vs. cell_of (quantile q vs))\<rparr>"

text \<open>
  \<open>df[col] < bound\<close> and \<open>df[col] > bound\<close> at one entry of a column of numbers: numpy
  compares float64 values, so an integer is compared as the float it is cast to.
\<close>

definition cast :: "float_ops \<Rightarrow> cell \<Rightarrow> cell" where
  "cast L v = (case v of Num r \<Rightarrow> Num (to_float L r) | _ \<Rightarrow> v)"

definition less_bound :: "float_ops \<Rightarrow> cell \<Rightarrow> cell \<Rightarrow> bool" where
  "less_bound L v b = fless (cast L v) b"

definition greater_bound :: "float_ops \<Rightarrow> cell \<Rightarrow> cell \<Rightarrow> bool" where
  "greater_bound L v b = fless b (cast L v)"

text \<open>
  The statistics are computed for a column of numbers: a numeric column, or an object
  column that holds numbers and missing values only. On text they raise TypeError. A
  datetime column is outside the embedding of the arithmetic, which reports TypeError
  for it as well.
\<close>

definition numeric_column :: "column \<Rightarrow> bool" where
  "numeric_column c =
     (dtype c \<noteq> Datetime \<and> list_all (\<lambda>v. isnull v \<or> is_num v) (cells c))"

subsection \<open>Filling missing values\<close>

definition fillna :: "cell \<Rightarrow> cell list \<Rightarrow> cell list" where
  "fillna x vs = map (\<lambda>v. if isnull v then x else v) vs"

fun ffill_from :: "cell \<Rightarrow> cell list \<Rightarrow> cell list" where
  "ffill_from prev [] = []"
| "ffill_from prev (v # vs) =
     (if isnull v then prev # ffill_from prev vs else v # ffill_from v vs)"

definition ffill :: "cell list \<Rightarrow> cell list" where
  "ffill vs = ffill_from Null vs"

definition bfill :: "cell list \<Rightarrow> cell list" where
  "bfill vs = rev (ffill (rev vs))"

text \<open>
  The loops \<open>for col in columns: df[col] = ...\<close>: each round reads the column by name
  (KeyError when the name is absent), computes its replacement, which may raise, and
  stores it in the frame.
\<close>

fun for_cols :: "(column \<Rightarrow> error + column) \<Rightarrow> string list \<Rightarrow> dataset \<Rightarrow> error + dataset" where
  "for_cols f [] d = Inr d"
| "for_cols f (col # rest) d =
     (case get_col d col of
        None \<Rightarrow> Inl KeyError
      | Some c \<Rightarrow>
          (case f c of
             Inl e \<Rightarrow> Inl e
           | Inr c' \<Rightarrow> for_cols f rest (set_col col c' d)))"

definition fill_ffill :: "column \<Rightarrow> error + column" where
  "fill_ffill c = Inr (c\<lparr>cells := ffill (cells c)\<rparr>)"

definition fill_bfill :: "column \<Rightarrow> error + column" where
  "fill_bfill c = Inr (c\<lparr>cells := bfill (cells c)\<rparr>)"

definition fill_mode :: "column \<Rightarrow> error + column" where
  "fill_mode c =
     (case mode0 (cells c) of
        None \<Rightarrow> Inl KeyError
      | Some m \<Rightarrow> Inr (c\<lparr>cells := fillna m (cells c)\<rparr>))"

definition fill_missing_values_categorical :: "dataset \<Rightarrow> string \<Rightarrow> error + dataset" where
  "fill_missing_values_categorical d method =
     (let categorical_columns = get_categorical_columns d
      in if method = ''ffill'' then for_cols fill_ffill categorical_columns d
         else if method = ''bfill'' then for_cols fill_bfill categorical_columns d
         else if method = ''mode'' then for_cols fill_mode categorical_columns d
         else Inl UnknownMethod)"

text \<open>
  \<open>df[col].fillna(df[col].mean(), inplace=True)\<close> fills the frame's own column (the
  cached Series of pandas 1.x) with the statistic that the arithmetic returns; filling
  with NaN fills nothing. Only an explicit \<open>columns\<close> argument can name a column that
  is not numeric.
\<close>

definition fill_number :: "(cell list \<Rightarrow> cell) \<Rightarrow> column \<Rightarrow> error + column" where
  "fill_number stat c =
     (if numeric_column c
      then Inr (c\<lparr>cells := fillna (stat (cells c)) (cells c)\<rparr>)
      else Inl TypeError)"

definition fill_missing_values_numeric ::
    "float_ops \<Rightarrow> dataset \<Rightarrow> string \<Rightarrow> string list option \<Rightarrow> error + dataset" where
  "fill_missing_values_numeric L d method columns =
     (let numeric_columns =
            (case columns of None \<Rightarrow> get_numerical_columns d | Some cs \<Rightarrow> cs)
      in if method = ''mean'' then for_cols (fill_number (mean_of L)) numeric_columns d
         else if method = ''median'' then for_cols (fill_number (median_of L)) numeric_columns d
         else Inl UnknownMethod)"

subsection \<open>remove_nan_categorical\<close>

text \<open>
  \<open>for col in categorical_columns: df = df[df[col] != 'nan']\<close>. The comparison is with
  the string \<open>'nan'\<close>: a missing value and a timestamp are different from it.
\<close>

fun drop_nan_rows :: "string list \<Rightarrow> dataset \<Rightarrow> error + dataset" where
  "drop_nan_rows [] d = Inr d"
| "drop_nan_rows (col # rest) d =
     (case get_col d col of
        None \<Rightarrow> Inl KeyError
      | Some c \<Rightarrow> drop_nan_rows rest (take_rows (map (\<lambda>v. v \<noteq> Str ''nan'') (cells c)) d))"

definition remove_nan_categorical :: "dataset \<Rightarrow> error + dataset" where
  "remove_nan_categorical d = drop_nan_rows (get_categorical_columns d) d"

text \<open>The cell of a row under a column name, and the rows that hold the string
  \<open>'nan'\<close> in no categorical column.\<close>

definition cell_at :: "dataset \<Rightarrow> cell list \<Rightarrow> string \<Rightarrow> cell option" where
  "cell_at d r col = map_of (zip (map fst (cols d)) r) col"

definition placeholder_free :: "dataset \<Rightarrow> cell list \<Rightarrow> bool" where
  "placeholder_free d r =
     list_all (\<lambda>col. cell_at d r col \<noteq> Some (Str ''nan'')) (get_categorical_columns d)"

subsection \<open>Frames as objects\<close>

text \<open>
  The methods receive a reference to a DataFrame object, and some of them change that
  object. A store lists the objects; a reference is a position in it. \<open>df.copy()\<close> and
  \<open>df[mask]\<close> allocate a new object; \<open>df[col]\<close> reads a column of an object and
  \<open>df[col] = values\<close> writes one.
\<close>

type_synonym store = "dataset list"

definition copy_df :: "nat \<Rightarrow> store \<Rightarrow> nat \<times> store" where
  "copy_df df s = (length s, s @ [s ! df])"

definition getitem :: "store \<Rightarrow> nat \<Rightarrow> string \<Rightarrow> column option" where
  "getitem s df col = get_col (s ! df) col"

definition setitem :: "nat \<Rightarrow> string \<Rightarrow> column \<Rightarrow> store \<Rightarrow> store" where
  "setitem df col c s = s[df := set_col col c (s ! df)]"

text \<open>\<open>drop_duplicates(inplace=True)\<close> changes the object it was given.\<close>

definition drop_duplicate_ref :: "nat \<Rightarrow> store \<Rightarrow> nat \<times> store" where
  "drop_duplicate_ref df s = (df, s[df := drop_duplicate (s ! df)])"

text \<open>In \<open>remove_nan_categorical\<close> every \<open>df = df[df[col] != 'nan']\<close> makes a new object
  and lets the local name \<open>df\<close> refer to it.\<close>

fun drop_nan_rows_ref :: "string list \<Rightarrow> nat \<Rightarrow> store \<Rightarrow> (error + nat) \<times> store" where
  "drop_nan_rows_ref [] df s = (Inr df, s)"
| "drop_nan_rows_ref (col # rest) df s =
     (case getitem s df col of
        None \<Rightarrow> (Inl KeyError, s)
      | Some c \<Rightarrow>
          drop_nan_rows_ref rest (length s)
            (s @ [take_rows (map (\<lambda>v. v \<noteq> Str ''nan'') (cells c)) (s ! df)]))"


subsection \<open>handle_outliers\<close>

definition np_where :: "bool list \<Rightarrow> cell \<Rightarrow> cell list \<Rightarrow> cell list" where
  "np_where cond x ys = map2 (\<lambda>b y. if b then x else y) cond ys"

text \<open>
  \<open>lower_bound = q1 - 1.5 * (q3 - q1)\<close> and \<open>upper_bound = q3 + 1.5 * (q3 - q1)\<close> of the
  quartiles \<open>q1\<close> and \<open>q3\<close> of the column, in the arithmetic \<open>L\<close>.
\<close>

definition lower_of :: "float_ops \<Rightarrow> cell list \<Rightarrow> cell" where
  "lower_of L vs =
     (let q1 = quantile_of L (1 / 4) vs; q3 = quantile_of L (3 / 4) vs
      in fsub L q1 (fmul L (Num (3 / 2)) (fsub L q3 q1)))"

definition upper_of :: "float_ops \<Rightarrow> cell list \<Rightarrow> cell" where
  "upper_of L vs =
     (let q1 = quantile_of L (1 / 4) vs; q3 = quantile_of L (3 / 4) vs
      in fadd L q3 (fmul L (Num (3 / 2)) (fsub L q3 q1)))"

text \<open>The two bounds without rounding and overflow, of a column of finite numbers.\<close>

definition lower_bound :: "cell list \<Rightarrow> rat option" where
  "lower_bound vs =
     (case (quantile (1 / 4) vs, quantile (3 / 4) vs) of
        (Some q1, Some q3) \<Rightarrow> Some (q1 - 3 / 2 * (q3 - q1))
      | _ \<Rightarrow> None)"

definition upper_bound :: "cell list \<Rightarrow> rat option" where
  "upper_bound vs =
     (case (quantile (1 / 4) vs, quantile (3 / 4) vs) of
        (Some q1, Some q3) \<Rightarrow> Some (q3 + 3 / 2 * (q3 - q1))
      | _ \<Rightarrow> None)"

text \<open>
  The branch \<open>method == 'mode'\<close> (lines 187 and 188): each line compares the column with a
  bound, takes \<open>df[col].mode()[0]\<close>, which raises KeyError on a column without a value,
  and assigns the array of \<open>np.where\<close> to the column. The array has the dtype of the
  column.
\<close>

definition replace_with_mode ::
    "float_ops \<Rightarrow> nat \<Rightarrow> string \<Rightarrow> cell \<Rightarrow> cell \<Rightarrow> store \<Rightarrow> (error + nat) \<times> store" where
  "replace_with_mode L df col lower upper s =
     (case getitem s df col of
        None \<Rightarrow> (Inl KeyError, s)
      | Some c \<Rightarrow>
          (case mode0 (cells c) of
             None \<Rightarrow> (Inl KeyError, s)
           | Some m1 \<Rightarrow>
               (let s1 = setitem df col
                    (c\<lparr>cells := np_where (map (\<lambda>v. less_bound L v lower) (cells c)) m1 (cells c)\<rparr>) s
                in case getitem s1 df col of
                     None \<Rightarrow> (Inl KeyError, s1)
                   | Some c1 \<Rightarrow>
                       (case mode0 (cells c1) of
                          None \<Rightarrow> (Inl KeyError, s1)
                        | Some m2 \<Rightarrow>
                            (Inr df, setitem df col
                               (c1\<lparr>cells := np_where (map (\<lambda>v. greater_bound L v upper) (cells c1))
                                                m2 (cells c1)\<rparr>) s1)))))"

text \<open>
  The branch \<open>method == 'median'\<close> (lines 190 and 191) passes \<open>df[col].median\<close>, the bound
  method itself, to \<open>np.where\<close>: the array it builds has dtype object and holds the
  entries as they were, and the second comparison raises TypeError when the first
  replacement has put a method into the column.
\<close>

definition replace_with_method ::
    "float_ops \<Rightarrow> nat \<Rightarrow> string \<Rightarrow> cell \<Rightarrow> cell \<Rightarrow> store \<Rightarrow> (error + nat) \<times> store" where
  "replace_with_method L df col lower upper s =
     (case getitem s df col of
        None \<Rightarrow> (Inl KeyError, s)
      | Some c \<Rightarrow>
          (let s1 = setitem df col
               \<lparr>dtype = Object,
                cells = np_where (map (\<lambda>v. less_bound L v lower) (cells c)) Method (cells c)\<rparr> s
           in case getitem s1 df col of
                None \<Rightarrow> (Inl KeyError, s1)
              | Some c1 \<Rightarrow>
                  if Method \<in> set (cells c1) then (Inl TypeError, s1)
                  else (Inr df, setitem df col
                          \<lparr>dtype = Object,
                           cells = np_where (map (\<lambda>v. greater_bound L v upper) (cells c1))
                                     Method (cells c1)\<rparr> s1)))"

text \<open>
  The default branch (lines 193 and 194). On a numeric column \<open>np.where\<close> with a float
  bound builds an array of floats, so line 193 casts every entry it keeps and line 194
  compares floats; on an object column the array holds the entries as they were.
\<close>

definition as_float :: "float_ops \<Rightarrow> dtype \<Rightarrow> cell \<Rightarrow> cell" where
  "as_float L t v = (if t = Number then cast L v else v)"

definition above :: "float_ops \<Rightarrow> dtype \<Rightarrow> cell \<Rightarrow> cell \<Rightarrow> bool" where
  "above L t v b = (if t = Number then fless b v else greater_bound L v b)"

definition clip_to_bounds ::
    "float_ops \<Rightarrow> nat \<Rightarrow> string \<Rightarrow> cell \<Rightarrow> cell \<Rightarrow> store \<Rightarrow> (error + nat) \<times> store" where
  "clip_to_bounds L df col lower upper s =
     (case getitem s df col of
        None \<Rightarrow> (Inl KeyError, s)
      | Some c \<Rightarrow>
          (let s1 = setitem df col
               (c\<lparr>cells := np_where (map (\<lambda>v. less_bound L v lower) (cells c)) lower
                               (map (as_float L (dtype c)) (cells c))\<rparr>) s
           in case getitem s1 df col of
                None \<Rightarrow> (Inl KeyError, s1)
              | Some c1 \<Rightarrow>
                  (Inr df, setitem df col
                     (c1\<lparr>cells := np_where (map (\<lambda>v. above L (dtype c1) v upper) (cells c1))
                                      upper (cells c1)\<rparr>) s1)))"

text \<open>
  Lines 181 to 196, on the object that \<open>df\<close> refers to: the quartiles and the bounds of
  \<open>df[col]\<close> (KeyError for an absent column, TypeError from \<open>quantile\<close> for a column that
  is not one of numbers), then one of the three branches, each of which assigns to that
  object, and \<open>return df\<close>.
\<close>

definition outliers_in_place ::
    "float_ops \<Rightarrow> nat \<Rightarrow> string \<Rightarrow> string \<Rightarrow> store \<Rightarrow> (error + nat) \<times> store" where
  "outliers_in_place L df col method s =
     (case getitem s df col of
        None \<Rightarrow> (Inl KeyError, s)
      | Some c \<Rightarrow>
          if \<not> numeric_column c then (Inl TypeError, s)
          else
            (let lower = lower_of L (cells c); upper = upper_of L (cells c)
             in if method = ''mode'' then replace_with_mode L df col lower upper s
                else if method = ''median'' then replace_with_method L df col lower upper s
                else clip_to_bounds L df col lower upper s))"

text \<open>The method: \<open>df = df.copy()\<close> (line 180) lets \<open>df\<close> refer to a new object, and the
  rest of the body works on that one.\<close>

definition handle_outliers_ref ::
    "float_ops \<Rightarrow> nat \<Rightarrow> string \<Rightarrow> string \<Rightarrow> store \<Rightarrow> (error + nat) \<times> store" where
  "handle_outliers_ref L df0 col method s0 =
     (case copy_df df0 s0 of (df, s) \<Rightarrow> outliers_in_place L df col method s)"

text \<open>The frame that a call returns, as a value: the object returned by the call on a
  store that holds the frame alone.\<close>

definition handle_outliers :: "float_ops \<Rightarrow> dataset \<Rightarrow> string \<Rightarrow> string \<Rightarrow> error + dataset" where
  "handle_outliers L d col method =
     (case handle_outliers_ref L 0 col method [d] of
        (Inl e, s) \<Rightarrow> Inl e
      | (Inr df, s) \<Rightarrow> Inr (s ! df))"

subsection \<open>Example frames\<close>

text \<open>The frame of the specification's example: one column \<open>x\<close> with 1, 2, 3, 100.\<close>

definition frame_x :: dataset where
  "frame_x =
     \<lparr>index = [0, 1, 2, 3],
      cols = [(''x'', \<lparr>dtype = Number, cells = [Num 1, Num 2, Num 3, Num 100]\<rparr>)]\<rparr>"

text \<open>A frame with a repeated row, the repeated row holding a missing value.\<close>

definition frame_dup :: dataset where
  "frame_dup =
     \<lparr>index = [0, 1, 2, 3],
      cols = [(''x'', \<lparr>dtype = Number, cells = [Num 1, Null, Num 1, Null]\<rparr>),
              (''y'', \<lparr>dtype = Object, cells = [Str ''a'', Str ''b'', Str ''a'', Str ''b'']\<rparr>)]\<rparr>"

text \<open>A frame whose text column holds missing values only.\<close>

definition frame_null_text :: dataset where
  "frame_null_text =
     \<lparr>index = [0, 1],
      cols = [(''x'', \<lparr>dtype = Number, cells = [Num 1, Num 2]\<rparr>),
              (''y'', \<lparr>dtype = Object, cells = [Null, Null]\<rparr>)]\<rparr>"

text \<open>A frame with a column and no row.\<close>

definition frame_no_rows :: dataset where
  "frame_no_rows = \<lparr>index = [], cols = [(''x'', \<lparr>dtype = Number, cells = []\<rparr>)]\<rparr>"

text \<open>A numeric column of missing values only.\<close>

definition frame_nan :: dataset where
  "frame_nan = \<lparr>index = [0, 1], cols = [(''x'', \<lparr>dtype = Number, cells = [Null, Null]\<rparr>)]\<rparr>"

text \<open>A frame with gaps in a numeric and in a text column, the placeholder string
  \<open>'nan'\<close> in the text column, and a numeric column without any value.\<close>

definition frame_gaps :: dataset where
  "frame_gaps =
     \<lparr>index = [0, 1, 2],
      cols = [(''x'', \<lparr>dtype = Number, cells = [Num 1, Null, Num 4]\<rparr>),
              (''y'', \<lparr>dtype = Object, cells = [Null, Str ''a'', Str ''nan'']\<rparr>),
              (''z'', \<lparr>dtype = Number, cells = [Null, Null, Null]\<rparr>)]\<rparr>"

text \<open>A frame with the placeholder in a text column and NaT in a datetime column.\<close>

definition frame_placeholder :: dataset where
  "frame_placeholder =
     \<lparr>index = [0, 1, 2],
      cols = [(''name'', \<lparr>dtype = Object, cells = [Str ''nan'', Str ''b'', Str ''c'']\<rparr>),
              (''start'', \<lparr>dtype = Datetime, cells = [Time 5, Null, Time 7]\<rparr>),
              (''n'', \<lparr>dtype = Number, cells = [Num 1, Num 2, Num 3]\<rparr>)]\<rparr>"


text \<open>
  An arithmetic in which the interpolation of the quartiles overflows, as it does in
  float64 when the difference of two entries is beyond the largest float: the first
  quartile comes out as the positive and the third as the negative infinity. The frame
  holds two such entries.
\<close>

definition overflowing :: float_ops where
  "overflowing = exact\<lparr>quantile_of := (\<lambda>q vs. if q < 1 / 2 then PInf else NInf)\<rparr>"

definition big :: rat where
  "big = 15 * 10 ^ 307"

definition frame_large :: dataset where
  "frame_large =
     \<lparr>index = [0, 1],
      cols = [(''x'', \<lparr>dtype = Number, cells = [Num (- big), Num big]\<rparr>)]\<rparr>"

section \<open>Properties\<close>

subsection \<open>Masks and rows\<close>

lemma select_zip: "select m (zip xs ys) = zip (select m xs) (select m ys)"
proof (induction m arbitrary: xs ys)
  case Nil
  show ?case by simp
next
  case (Cons b bs)
  show ?case
  proof (cases xs)
    case Nil
    then show ?thesis by simp
  next
    case xs: (Cons x xs')
    show ?thesis
    proof (cases ys)
      case Nil
      then show ?thesis using xs by (cases "select (b # bs) xs") simp_all
    next
      case (Cons y ys')
      then show ?thesis using xs Cons.IH by simp
    qed
  qed
qed

lemma select_map: "select m (map f xs) = map f (select m xs)"
  by (induction m xs rule: select.induct) simp_all

lemma select_replicate:
  "length xs = n \<Longrightarrow> select m (replicate n a) = replicate (length (select m xs)) a"
proof (induction m arbitrary: xs n)
  case Nil
  show ?case by simp
next
  case (Cons b bs)
  show ?case
  proof (cases xs)
    case Nil
    with Cons.prems show ?thesis by simp
  next
    case (Cons x xs')
    with Cons.prems obtain k where "n = Suc k" "length xs' = k" by auto
    with Cons Cons.IH [of xs' k] show ?thesis by simp
  qed
qed

lemma rows_of_take:
  "length idx = n \<Longrightarrow>
   rows_of (length (select m idx))
     (map (\<lambda>nc. (fst nc, (snd nc)\<lparr>cells := select m (cells (snd nc))\<rparr>)) ncs)
   = select m (rows_of n ncs)"
proof (induction ncs)
  case Nil
  then show ?case by (simp add: select_replicate)
next
  case (Cons nc ncs)
  then show ?case by (simp add: select_zip select_map)
qed

lemma rows_take_rows: "rows (take_rows m d) = select m (rows d)"
  by (simp add: rows_def take_rows_def rows_of_take)

lemma select_append:
  "length m = length xs \<Longrightarrow> select (m @ m') (xs @ xs') = select m xs @ select m' xs'"
  by (induction m xs rule: list_induct2) simp_all

lemma select_all: "length xs \<le> n \<Longrightarrow> select (replicate n True) xs = xs"
proof (induction xs arbitrary: n)
  case Nil
  show ?case by (cases n) simp_all
next
  case (Cons x xs)
  then obtain k where "n = Suc k" "length xs \<le> k" by (cases n) auto
  with Cons.IH show ?case by simp
qed

lemma length_select: "length xs = length ys \<Longrightarrow> length (select m xs) = length (select m ys)"
proof (induction m arbitrary: xs ys)
  case Nil
  show ?case by simp
next
  case (Cons b bs)
  show ?case
  proof (cases xs)
    case Nil
    with Cons.prems show ?thesis by simp
  next
    case xs: (Cons x xs')
    with Cons.prems obtain y ys' where "ys = y # ys'" "length xs' = length ys'"
      by (cases ys) auto
    with xs Cons.IH [of xs' ys'] show ?thesis by simp
  qed
qed

lemma set_select: "set (select m xs) \<subseteq> set xs"
  by (induction m xs rule: select.induct) auto

lemma length_rows_of: "length (rows_of n ncs) \<le> n"
  by (induction ncs) simp_all

subsection \<open>Well-formed frames stay well-formed\<close>

lemma column_ok_select:
  assumes "column_ok (length idx) c"
  shows "column_ok (length (select m idx)) (c\<lparr>cells := select m (cells c)\<rparr>)"
proof -
  from assms have len: "length (cells c) = length idx"
    and ok: "list_all (cell_ok (dtype c)) (cells c)"
    by (simp_all add: column_ok_def)
  have "list_all (cell_ok (dtype c)) (select m (cells c))"
    using ok set_select [of m "cells c"] by (auto simp: list_all_iff)
  with length_select [OF len, of m] show ?thesis by (simp add: column_ok_def)
qed

lemma wf_take_rows: "wf d \<Longrightarrow> wf (take_rows m d)"
  by (auto simp: wf_def take_rows_def list_all_iff comp_def intro: column_ok_select)

lemma take_rows_all:
  assumes "wf d" "length (index d) \<le> n"
  shows "take_rows (replicate n True) d = d"
proof -
  have "(fst nc, (snd nc)\<lparr>cells := select (replicate n True) (cells (snd nc))\<rparr>) = nc"
    if "nc \<in> set (cols d)" for nc
  proof -
    from that assms(1) have "length (cells (snd nc)) = length (index d)"
      by (auto simp: wf_def list_all_iff column_ok_def)
    with assms(2) show ?thesis by (simp add: select_all)
  qed
  then have "map (\<lambda>nc. (fst nc, (snd nc)\<lparr>cells := select (replicate n True) (cells (snd nc))\<rparr>))
               (cols d) = cols d"
    by (simp add: map_idI)
  with assms(2) show ?thesis by (simp add: take_rows_def select_all)
qed

subsection \<open>First occurrences\<close>

lemma duplicated_snoc:
  "duplicated seen (rs @ [r]) = duplicated seen rs @ [r \<in> set seen \<union> set rs]"
  by (induction rs arbitrary: seen) auto

lemma length_duplicated: "length (duplicated seen rs) = length rs"
  by (induction rs arbitrary: seen) simp_all

lemma first_occurrences:
  "select (map Not (duplicated [] rs)) rs = rev (remdups (rev rs))"
proof (induction rs rule: rev_induct)
  case Nil
  show ?case by simp
next
  case (snoc r rs)
  have "select (map Not (duplicated [] (rs @ [r]))) (rs @ [r])
        = select (map Not (duplicated [] rs)) rs @ select [r \<notin> set rs] [r]"
    by (simp add: duplicated_snoc select_append length_duplicated)
  with snoc.IH show ?case by simp
qed

lemma duplicated_distinct:
  "distinct rs \<Longrightarrow> set rs \<inter> set seen = {} \<Longrightarrow>
   duplicated seen rs = replicate (length rs) False"
  by (induction rs arbitrary: seen) auto

subsection \<open>drop_duplicate is idempotent\<close>

lemma length_rows_of_eq:
  "list_all (column_ok n) (map snd ncs) \<Longrightarrow> length (rows_of n ncs) = n"
  by (induction ncs) (simp_all add: column_ok_def)

lemma length_rows: "wf d \<Longrightarrow> length (rows d) = length (index d)"
  by (simp add: rows_def wf_def length_rows_of_eq)

lemma rows_drop_duplicate:
  "rows (drop_duplicate d) =
     (if cols d = [] then rows d else rev (remdups (rev (rows d))))"
proof (cases "empty_df d")
  case True
  then have "cols d \<noteq> [] \<Longrightarrow> rows d = []"
    using length_rows_of [of 0 "cols d"] by (simp add: empty_df_def rows_def)
  with True show ?thesis by (auto simp: drop_duplicate_def)
next
  case False
  then show ?thesis
    by (simp add: drop_duplicate_def rows_take_rows first_occurrences empty_df_def)
qed

text \<open>
  C6. For every frame, dropping duplicates twice gives what dropping them once gives;
  the rows kept are the first occurrences, in their order (on a frame with at least one
  column; a frame without columns is returned as it is).
\<close>

theorem drop_duplicate_idempotent:
  assumes "wf d"
  shows "drop_duplicate (drop_duplicate d) = drop_duplicate d \<and>
         rows (drop_duplicate d) =
           (if cols d = [] then rows d else rev (remdups (rev (rows d))))"
proof -
  let ?d' = "drop_duplicate d"
  have idem: "drop_duplicate ?d' = ?d'"
  proof (cases "empty_df ?d'")
    case True
    then show ?thesis by (simp add: drop_duplicate_def [of ?d'])
  next
    case False
    then have ne: "cols ?d' \<noteq> []" by (simp add: empty_df_def)
    have "cols d \<noteq> []"
    proof
      assume "cols d = []"
      then have "?d' = d" by (simp add: drop_duplicate_def empty_df_def)
      with ne \<open>cols d = []\<close> show False by simp
    qed
    then have "rows ?d' = rev (remdups (rev (rows d)))"
      by (simp add: rows_drop_duplicate)
    then have "distinct (rows ?d')" by simp
    then have dup: "duplicated [] (rows ?d') = replicate (length (rows ?d')) False"
      by (simp add: duplicated_distinct)
    have wf': "wf ?d'" using assms by (simp add: drop_duplicate_def wf_take_rows)
    have len: "length (index ?d') \<le> length (rows ?d')"
      using wf' by (simp add: length_rows)
    have "drop_duplicate ?d' = take_rows (replicate (length (rows ?d')) True) ?d'"
      using False dup by (simp add: drop_duplicate_def [of ?d'])
    with take_rows_all [OF wf' len] show ?thesis by simp
  qed
  with rows_drop_duplicate show ?thesis by simp
qed

theorem drop_duplicate_idempotent_witness:
  "wf frame_dup \<and>
   drop_duplicate frame_dup =
     \<lparr>index = [0, 1],
      cols = [(''x'', \<lparr>dtype = Number, cells = [Num 1, Null]\<rparr>),
              (''y'', \<lparr>dtype = Object, cells = [Str ''a'', Str ''b'']\<rparr>)]\<rparr> \<and>
   drop_duplicate (drop_duplicate frame_dup) = drop_duplicate frame_dup"
proof -
  have w: "wf frame_dup"
    by (simp add: wf_def frame_dup_def column_ok_def)
  have "drop_duplicate frame_dup =
     \<lparr>index = [0, 1],
      cols = [(''x'', \<lparr>dtype = Number, cells = [Num 1, Null]\<rparr>),
              (''y'', \<lparr>dtype = Object, cells = [Str ''a'', Str ''b'']\<rparr>)]\<rparr>"
    by (simp add: drop_duplicate_def empty_df_def frame_dup_def rows_def take_rows_def)
  with w drop_duplicate_idempotent [OF w] show ?thesis by simp
qed

subsection \<open>The example of the specification\<close>

text \<open>
  C4 as stated fails. The specification's example expects the frame with
  \<open>x\<close> = 1, 2, 3, 100 to come back unchanged under the default method, from
  a third quartile of 51.5. The third quartile of pandas is 27.25, and the result is not
  the input.
\<close>

theorem handle_outliers_example_counterexample:
  "handle_outliers exact frame_x ''x'' ''IQR'' \<noteq> Inr frame_x \<and>
   quantile (3 / 4) [Num 1, Num 2, Num 3, Num 100] \<noteq> Some (103 / 2)"
  by code_simp

text \<open>
  C4, as the code computes it. On the frame with \<open>x\<close> = 1, 2, 3, 100 and the default
  method \<open>'IQR'\<close>: Q1 = 1.75, Q3 = 27.25, so IQR = 25.5, the lower bound is -36.5 and
  the upper bound 65.5; the entry 100 lies above it and is replaced by 65.5, the other
  entries stay. Every number of this computation is a float64, so that the arithmetic
  without rounding is the one of the code.
\<close>

theorem handle_outliers_example:
  "handle_outliers exact frame_x ''x'' ''IQR'' =
     Inr \<lparr>index = [0, 1, 2, 3],
          cols = [(''x'', \<lparr>dtype = Number, cells = [Num 1, Num 2, Num 3, Num (131 / 2)]\<rparr>)]\<rparr> \<and>
   quantile (1 / 4) [Num 1, Num 2, Num 3, Num 100] = Some (7 / 4) \<and>
   quantile (3 / 4) [Num 1, Num 2, Num 3, Num 100] = Some (109 / 4) \<and>
   lower_bound [Num 1, Num 2, Num 3, Num 100] = Some (- (73 / 2)) \<and>
   upper_bound [Num 1, Num 2, Num 3, Num 100] = Some (131 / 2)"
  by code_simp

text \<open>
  C1 at a concrete frame. With the method \<open>'median'\<close> the entry 100 of the frame
  \<open>x\<close> = 1, 2, 3, 100 lies above the upper bound 65.5; the code puts the bound method
  \<open>df[col].median\<close> in its place, not the median 2.5 of the column, and the column
  becomes an object column.
\<close>

theorem handle_outliers_median_stores_method:
  "handle_outliers exact frame_x ''x'' ''median'' =
     Inr \<lparr>index = [0, 1, 2, 3],
          cols = [(''x'', \<lparr>dtype = Object, cells = [Num 1, Num 2, Num 3, Method]\<rparr>)]\<rparr> \<and>
   upper_bound [Num 1, Num 2, Num 3, Num 100] = Some (131 / 2) \<and>
   median [Num 1, Num 2, Num 3, Num 100] = Some (5 / 2)"
  by code_simp

subsection \<open>Unknown methods\<close>

lemma for_cols_error:
  assumes "\<And>c e. f c = Inl e \<Longrightarrow> e = KeyError \<or> e = TypeError"
  shows "for_cols f ns d \<noteq> Inl UnknownMethod"
proof (induction ns arbitrary: d)
  case Nil
  show ?case by simp
next
  case (Cons n ns)
  show ?case
  proof (cases "get_col d n")
    case None
    then show ?thesis by simp
  next
    case (Some c)
    show ?thesis
    proof (cases "f c")
      case (Inl e)
      with assms [of c e] Some show ?thesis by auto
    next
      case (Inr c')
      with Some Cons.IH [of "set_col n c' d"] show ?thesis by simp
    qed
  qed
qed

text \<open>
  C8. \<open>fill_missing_values_categorical\<close> raises \<open>ValueError("Method unknown")\<close> exactly
  when the method is none of \<open>ffill\<close>, \<open>bfill\<close>, \<open>mode\<close>, and
  \<open>fill_missing_values_numeric\<close> exactly when it is none of \<open>mean\<close>, \<open>median\<close>,
  whatever the frame, the arithmetic and the \<open>columns\<close> argument are: the outcome for
  an unknown method does not depend on the frame, and no column is touched before it.
\<close>

theorem unknown_method_iff:
  "(fill_missing_values_categorical d method = Inl UnknownMethod)
     = (method \<notin> {''ffill'', ''bfill'', ''mode''}) \<and>
   (fill_missing_values_numeric L d method columns = Inl UnknownMethod)
     = (method \<notin> {''mean'', ''median''})"
proof -
  have a: "for_cols fill_ffill ns d \<noteq> Inl UnknownMethod" for ns
    by (rule for_cols_error) (simp add: fill_ffill_def)
  have b: "for_cols fill_bfill ns d \<noteq> Inl UnknownMethod" for ns
    by (rule for_cols_error) (simp add: fill_bfill_def)
  have c: "for_cols fill_mode ns d \<noteq> Inl UnknownMethod" for ns
    by (rule for_cols_error) (auto simp: fill_mode_def split: option.splits)
  have e: "for_cols (fill_number stat) ns d \<noteq> Inl UnknownMethod" for stat ns
    by (rule for_cols_error) (auto simp: fill_number_def split: if_splits)
  show ?thesis
    using a b c e
    by (simp add: fill_missing_values_categorical_def fill_missing_values_numeric_def Let_def)
qed

subsection \<open>Mode of a column without values\<close>

lemma get_col_put_other: "n \<noteq> col \<Longrightarrow> get_col (set_col n c d) col = get_col d col"
proof -
  have "n \<noteq> col \<Longrightarrow> map_of (put n c ncs) col = map_of ncs col" for ncs
    by (induction ncs) auto
  then show "n \<noteq> col \<Longrightarrow> get_col (set_col n c d) col = get_col d col"
    by (simp add: get_col_def set_col_def)
qed

lemma for_cols_raises:
  assumes "\<And>c e. f c = Inl e \<Longrightarrow> e = KeyError"
    and "f c = Inl KeyError"
  shows "col \<in> set ns \<Longrightarrow> get_col d col = Some c \<Longrightarrow> for_cols f ns d = Inl KeyError"
proof (induction ns arbitrary: d)
  case Nil
  then show ?case by simp
next
  case (Cons n ns)
  show ?case
  proof (cases "get_col d n")
    case None
    then show ?thesis by simp
  next
    case (Some cn)
    show ?thesis
    proof (cases "f cn")
      case (Inl e)
      with assms(1) [of cn e] Some show ?thesis by simp
    next
      case (Inr c')
      with Some assms(2) Cons.prems have "n \<noteq> col" by auto
      with Cons.prems have "col \<in> set ns" "get_col (set_col n c' d) col = Some c"
        by (simp_all add: get_col_put_other)
      with Cons.IH have "for_cols f ns (set_col n c' d) = Inl KeyError" by simp
      with Some Inr show ?thesis by simp
    qed
  qed
qed

lemma mode0_all_null: "list_all isnull vs \<Longrightarrow> mode0 vs = None"
proof -
  assume "list_all isnull vs"
  then have "filter (\<lambda>v. \<not> isnull v) vs = []" by (simp add: list_all_iff)
  then show ?thesis by (simp add: mode0_def modes_def)
qed

text \<open>
  C10. When a categorical column of the frame holds missing values only,
  \<open>fill_missing_values_categorical\<close> with the valid method \<open>mode\<close> raises: the mode
  of that column is empty and \<open>mode()[0]\<close> is a KeyError.
\<close>

theorem mode_fill_all_null_raises:
  assumes "get_col d col = Some c"
    and "dtype c = Object \<or> dtype c = Datetime"
    and "list_all isnull (cells c)"
  shows "fill_missing_values_categorical d ''mode'' = Inl KeyError"
proof -
  from assms(1) have "(col, c) \<in> set (cols d)"
    by (simp add: get_col_def map_of_SomeD)
  with assms(2) have mem: "col \<in> set (get_categorical_columns d)"
    by (force simp: get_categorical_columns_def)
  have "fill_mode c = Inl KeyError"
    using assms(3) by (simp add: fill_mode_def mode0_all_null)
  moreover have "\<And>c e. fill_mode c = Inl e \<Longrightarrow> e = KeyError"
    by (auto simp: fill_mode_def split: option.splits)
  ultimately have "for_cols fill_mode (get_categorical_columns d) d = Inl KeyError"
    using mem assms(1) for_cols_raises [of fill_mode c col] by blast
  then show ?thesis by (simp add: fill_missing_values_categorical_def)
qed

theorem mode_fill_all_null_raises_witness:
  "get_col frame_null_text ''y'' = Some \<lparr>dtype = Object, cells = [Null, Null]\<rparr> \<and>
   fill_missing_values_categorical frame_null_text ''mode'' = Inl KeyError"
proof -
  have g: "get_col frame_null_text ''y'' = Some \<lparr>dtype = Object, cells = [Null, Null]\<rparr>"
    by (simp add: get_col_def frame_null_text_def)
  from g mode_fill_all_null_raises [OF g] show ?thesis by (simp add: isnull_def)
qed

subsection \<open>percent_missing_column\<close>

lemma rint_bounds:
  assumes "0 \<le> x" "x \<le> of_int n"
  shows "0 \<le> rint x \<and> rint x \<le> n"
proof -
  have lo: "0 \<le> \<lfloor>x\<rfloor>" using assms(1) by simp
  have hi: "\<lfloor>x\<rfloor> \<le> n" using assms(2) by (simp add: floor_le_iff)
  have up: "\<lfloor>x\<rfloor> + 1 \<le> n" if "1 / 2 \<le> x - of_int \<lfloor>x\<rfloor>"
  proof (rule ccontr)
    assume "\<not> \<lfloor>x\<rfloor> + 1 \<le> n"
    with hi have "\<lfloor>x\<rfloor> = n" by simp
    then have "of_int n \<le> x" by (metis of_int_floor_le)
    with assms(2) have "x = of_int n" by simp
    with that show False by simp
  qed
  show ?thesis
    using lo hi up by (auto simp: rint_def Let_def not_less)
qed

text \<open>
  C7 as stated fails on a frame without rows: the column is present and the percentage
  is 0/0; the method returns NaN, which is no value of the interval from 0 to 100.
\<close>

theorem percent_missing_column_counterexample:
  "get_col frame_no_rows ''x'' = Some \<lparr>dtype = Number, cells = []\<rparr> \<and>
   percent_missing_column frame_no_rows ''x'' = Inr None"
  by (simp add: percent_missing_column_def get_col_def frame_no_rows_def)

text \<open>
  C7, for a frame with at least one row. When the column is present,
  \<open>percent_missing_column\<close> returns a number between 0 and 100 that has at most two
  decimals.
\<close>

theorem percent_missing_column_range:
  assumes "get_col d col = Some c" and "cells c \<noteq> []"
  shows "\<exists>r. percent_missing_column d col = Inr (Some r) \<and> 0 \<le> r \<and> r \<le> 100 \<and>
             of_int \<lfloor>r * 100\<rfloor> = r * 100"
proof -
  let ?m = "length (filter isnull (cells c))"
  let ?n = "length (cells c)"
  let ?x = "(of_nat ?m / of_nat ?n * 100 :: rat)"
  from assms(2) have n: "0 < ?n" by simp
  have "?m \<le> ?n" by simp
  then have "(of_nat ?m :: rat) \<le> of_nat ?n" by (simp only: of_nat_le_iff)
  with n have frac: "(of_nat ?m / of_nat ?n :: rat) \<le> 1" by (simp add: divide_le_eq)
  have x0: "0 \<le> ?x * 100" by simp
  have x1: "?x * 100 \<le> of_int 10000" using frac by simp
  from rint_bounds [OF x0 x1] have r: "0 \<le> rint (?x * 100)" "rint (?x * 100) \<le> 10000"
    by simp_all
  have res: "percent_missing_column d col = Inr (Some (round2 ?x))"
    using assms n by (simp add: percent_missing_column_def Let_def)
  have "0 \<le> round2 ?x" using r(1) by (simp add: round2_def)
  moreover have "round2 ?x \<le> 100"
  proof -
    from r(2) have "(of_int (rint (?x * 100)) :: rat) \<le> of_int 10000"
      by (simp only: of_int_le_iff)
    then show ?thesis by (simp add: round2_def)
  qed
  moreover have "of_int \<lfloor>round2 ?x * 100\<rfloor> = round2 ?x * 100"
    by (simp add: round2_def)
  ultimately show ?thesis using res by blast
qed

theorem percent_missing_column_range_witness:
  "get_col frame_dup ''x'' = Some \<lparr>dtype = Number, cells = [Num 1, Null, Num 1, Null]\<rparr> \<and>
   percent_missing_column frame_dup ''x'' = Inr (Some 50)"
proof -
  have g: "get_col frame_dup ''x'' = Some \<lparr>dtype = Number, cells = [Num 1, Null, Num 1, Null]\<rparr>"
    by (simp add: get_col_def frame_dup_def)
  have e: "percent_missing_column frame_dup ''x'' = Inr (Some 50)"
    by code_simp
  from percent_missing_column_range [OF g] g e show ?thesis by simp
qed

subsection \<open>handle_outliers works on a copy\<close>













text \<open>\<open>drop_duplicate\<close>, by contrast, changes the object it was given, and the value
  of \<open>remove_nan_categorical\<close> is the last object that its loop allocates.\<close>

lemma drop_duplicate_ref_in_place:
  "df < length s \<Longrightarrow> snd (drop_duplicate_ref df s) ! df = drop_duplicate (s ! df)"
  by (simp add: drop_duplicate_ref_def)

lemma take_prefix: "take (Suc (length s)) t = s @ [d] \<Longrightarrow> take (length s) t = s"
proof -
  assume a: "take (Suc (length s)) t = s @ [d]"
  have "take (length s) t = take (length s) (take (Suc (length s)) t)" by simp
  also have "\<dots> = s" unfolding a by simp
  finally show ?thesis .
qed

lemma drop_nan_rows_ref_value:
  "df < length s \<Longrightarrow>
   (case drop_nan_rows_ref ns df s of
      (Inl e, t) \<Rightarrow> drop_nan_rows ns (s ! df) = Inl e \<and> take (length s) t = s
    | (Inr r, t) \<Rightarrow> drop_nan_rows ns (s ! df) = Inr (t ! r) \<and> r < length t \<and>
        take (length s) t = s)"
proof (induction ns arbitrary: df s)
  case Nil
  then show ?case by simp
next
  case (Cons n ns)
  show ?case
  proof (cases "get_col (s ! df) n")
    case None
    then show ?thesis by (simp add: getitem_def)
  next
    case (Some c)
    let ?d = "take_rows (map (\<lambda>v. v \<noteq> Str ''nan'') (cells c)) (s ! df)"
    have "length s < length (s @ [?d])" by simp
    from Cons.IH [OF this, of] Some show ?thesis
      by (auto simp: getitem_def take_prefix split: prod.splits sum.splits)
  qed
qed

subsection \<open>Loops over columns\<close>

lemma put_distinct:
  "distinct (map fst ncs) \<Longrightarrow> (col, c0) \<in> set ncs \<Longrightarrow>
   put col c ncs = map (\<lambda>nc. if fst nc = col then (fst nc, c) else nc) ncs"
proof (induction ncs)
  case Nil
  then show ?case by simp
next
  case (Cons nc ncs)
  show ?case
  proof (cases "fst nc = col")
    case True
    with Cons.prems(1) have "col \<notin> fst ` set ncs" by simp
    then have "\<forall>x \<in> set ncs. fst x \<noteq> col" by (metis imageI)
    then have "map (\<lambda>nc. if fst nc = col then (fst nc, c) else nc) ncs = ncs"
      by (simp add: map_idI)
    with True show ?thesis by simp
  next
    case False
    with Cons show ?thesis by auto
  qed
qed

lemma for_cols_map:
  assumes "\<And>c. ok c \<Longrightarrow> f c = Inr (g c)"
  shows "distinct ns \<Longrightarrow> distinct (map fst (cols d)) \<Longrightarrow> set ns \<subseteq> fst ` set (cols d) \<Longrightarrow>
         (\<forall>nc \<in> set (cols d). fst nc \<in> set ns \<longrightarrow> ok (snd nc)) \<Longrightarrow>
         for_cols f ns d =
           Inr (d\<lparr>cols := map (\<lambda>nc. if fst nc \<in> set ns then (fst nc, g (snd nc)) else nc)
                              (cols d)\<rparr>)"
proof (induction ns arbitrary: d)
  case Nil
  then show ?case by simp
next
  case (Cons n ns)
  from Cons.prems(3) obtain c where c: "(n, c) \<in> set (cols d)" by auto
  with Cons.prems(2) have g: "get_col d n = Some c" by (simp add: get_col_def)
  from c Cons.prems(4) have "ok c" by auto
  then have fc: "f c = Inr (g c)" by (rule assms)
  let ?d1 = "set_col n (g c) d"
  have cols1: "cols ?d1 = map (\<lambda>nc. if fst nc = n then (fst nc, g c) else nc) (cols d)"
    using put_distinct [OF Cons.prems(2) c] by (simp add: set_col_def)
  have names1: "map fst (cols ?d1) = map fst (cols d)"
    by (simp add: cols1 comp_def if_distrib cong: if_cong)
  have same: "snd nc = c" if "nc \<in> set (cols d)" "fst nc = n" for nc
    using that c Cons.prems(2) by (metis eq_key_imp_eq_value prod.collapse)
  have "for_cols f ns ?d1 =
          Inr (?d1\<lparr>cols := map (\<lambda>nc. if fst nc \<in> set ns then (fst nc, g (snd nc)) else nc)
                               (cols ?d1)\<rparr>)"
  proof (rule Cons.IH)
    show "distinct ns" using Cons.prems(1) by simp
    show "distinct (map fst (cols ?d1))" using names1 Cons.prems(2) by simp
    show "set ns \<subseteq> fst ` set (cols ?d1)"
      using Cons.prems(3) names1 by (metis list.set_map set_subset_Cons subset_trans)
    show "\<forall>nc \<in> set (cols ?d1). fst nc \<in> set ns \<longrightarrow> ok (snd nc)"
      using Cons.prems(1,4) by (auto simp: cols1)
  qed
  moreover have "map (\<lambda>nc. if fst nc \<in> set ns then (fst nc, g (snd nc)) else nc) (cols ?d1)
      = map (\<lambda>nc. if fst nc \<in> set (n # ns) then (fst nc, g (snd nc)) else nc) (cols d)"
    using Cons.prems(1) same by (auto simp: cols1)
  ultimately show ?case using g fc by (simp add: set_col_def)
qed

subsection \<open>Filling with the mean\<close>

lemma numerical_name_iff:
  assumes "distinct (map fst (cols d))" "nc \<in> set (cols d)"
  shows "(fst nc \<in> set (get_numerical_columns d)) = (dtype (snd nc) = Number)"
proof
  assume "fst nc \<in> set (get_numerical_columns d)"
  then obtain nc' where nc': "nc' \<in> set (cols d)" "dtype (snd nc') = Number" "fst nc' = fst nc"
    by (auto simp: get_numerical_columns_def)
  with assms have "snd nc' = snd nc"
    by (metis eq_key_imp_eq_value prod.collapse)
  with nc' show "dtype (snd nc) = Number" by simp
next
  assume "dtype (snd nc) = Number"
  with assms(2) show "fst nc \<in> set (get_numerical_columns d)"
    by (auto simp: get_numerical_columns_def)
qed

lemma number_cell: "cell_ok Number v \<Longrightarrow> isnull v \<or> is_num v"
  by (cases v) (simp_all add: isnull_def)

lemma numeric_column_wf:
  assumes "wf d" "nc \<in> set (cols d)" "dtype (snd nc) = Number"
  shows "numeric_column (snd nc)"
proof -
  from assms have "list_all (cell_ok Number) (cells (snd nc))"
    by (force simp: wf_def column_ok_def list_all_iff)
  then have "list_all (\<lambda>v. isnull v \<or> is_num v) (cells (snd nc))"
    using number_cell by (auto simp: list_all_iff)
  with assms(3) show ?thesis by (simp add: numeric_column_def)
qed

lemma fillna_Null: "fillna Null vs = vs"
  by (simp add: fillna_def isnull_def map_idI)

lemma fillna_value: "\<not> isnull m \<Longrightarrow> list_all (\<lambda>v. \<not> isnull v) (fillna m vs)"
  by (induction vs) (simp_all add: fillna_def)

text \<open>Without rounding and overflow the mean is NaN exactly when the column holds no
  finite number.\<close>

lemma mean_exact_null_iff: "isnull (mean_of exact vs) = (nums vs = [])"
  by (simp add: exact_def mean_def cell_of_def isnull_def Let_def)

lemma fill_mean_result:
  assumes "wf d"
  shows "fill_missing_values_numeric L d ''mean'' None =
           Inr (d\<lparr>cols := map (\<lambda>nc. if dtype (snd nc) = Number
                      then (fst nc, (snd nc)\<lparr>cells :=
                              fillna (mean_of L (cells (snd nc))) (cells (snd nc))\<rparr>)
                      else nc) (cols d)\<rparr>)"
proof -
  let ?g = "\<lambda>c. c\<lparr>cells := fillna (mean_of L (cells c)) (cells c)\<rparr>"
  let ?ns = "get_numerical_columns d"
  from assms have dist: "distinct (map fst (cols d))" by (simp add: wf_def)
  have "for_cols (fill_number (mean_of L)) ?ns d =
          Inr (d\<lparr>cols := map (\<lambda>nc. if fst nc \<in> set ?ns then (fst nc, ?g (snd nc)) else nc)
                             (cols d)\<rparr>)"
  proof (rule for_cols_map [where ok = numeric_column])
    show "\<And>c. numeric_column c \<Longrightarrow> fill_number (mean_of L) c = Inr (?g c)"
      by (simp add: fill_number_def)
    show "distinct ?ns"
      using dist by (simp add: get_numerical_columns_def distinct_map_filter)
    show "distinct (map fst (cols d))" by (rule dist)
    show "set ?ns \<subseteq> fst ` set (cols d)" by (auto simp: get_numerical_columns_def)
    show "\<forall>nc \<in> set (cols d). fst nc \<in> set ?ns \<longrightarrow> numeric_column (snd nc)"
      using numerical_name_iff [OF dist] numeric_column_wf [OF assms] by blast
  qed
  moreover have "map (\<lambda>nc. if fst nc \<in> set ?ns then (fst nc, ?g (snd nc)) else nc) (cols d)
      = map (\<lambda>nc. if dtype (snd nc) = Number then (fst nc, ?g (snd nc)) else nc) (cols d)"
    using numerical_name_iff [OF dist] by simp
  ultimately show ?thesis by (simp add: fill_missing_values_numeric_def)
qed

text \<open>
  C2 as stated fails. A numeric column that holds missing values only has the mean NaN,
  and filling with NaN changes nothing: the frame comes back with its missing values.
\<close>

theorem fill_mean_counterexample:
  "get_numerical_columns frame_nan = [''x''] \<and>
   fill_missing_values_numeric exact frame_nan ''mean'' None = Inr frame_nan \<and>
   get_col frame_nan ''x'' = Some \<lparr>dtype = Number, cells = [Null, Null]\<rparr>"
  by code_simp

text \<open>
  C2, for the columns whose mean is a number. \<open>fill_missing_values_numeric\<close> with the
  method \<open>mean\<close> (and no \<open>columns\<close> argument) returns the frame with the same column names
  and dtypes. In a numeric column whose mean, as the arithmetic computes it, is not NaN,
  every missing value is replaced by that mean, so that none is left; a numeric column
  whose mean is NaN and every column that is not numeric are unchanged.
\<close>

theorem fill_mean_no_null:
  assumes "wf d"
  shows "\<exists>d'. fill_missing_values_numeric L d ''mean'' None = Inr d' \<and>
           map fst (cols d') = map fst (cols d) \<and>
           (\<forall>col c. get_col d col = Some c \<longrightarrow>
              (\<exists>c'. get_col d' col = Some c' \<and> dtype c' = dtype c \<and>
                 (if dtype c = Number \<and> \<not> isnull (mean_of L (cells c))
                  then cells c' = fillna (mean_of L (cells c)) (cells c) \<and>
                       list_all (\<lambda>v. \<not> isnull v) (cells c')
                  else c' = c)))"
proof -
  let ?g = "\<lambda>c. c\<lparr>cells := fillna (mean_of L (cells c)) (cells c)\<rparr>"
  let ?h = "\<lambda>c. if dtype c = Number then ?g c else c"
  let ?d' = "d\<lparr>cols := map (\<lambda>nc. if dtype (snd nc) = Number then (fst nc, ?g (snd nc)) else nc)
                            (cols d)\<rparr>"
  have res: "fill_missing_values_numeric L d ''mean'' None = Inr ?d'"
    by (rule fill_mean_result [OF assms])
  have cols': "cols ?d' = map (\<lambda>(n, c). (n, ?h c)) (cols d)"
    by (auto simp: case_prod_beta)
  have names: "map fst (cols ?d') = map fst (cols d)"
    by (simp add: comp_def if_distrib cong: if_cong)
  have get: "get_col ?d' col = map_option ?h (get_col d col)" for col
    unfolding get_col_def cols' by (simp add: map_of_map)
  have "\<exists>c'. get_col ?d' col = Some c' \<and> dtype c' = dtype c \<and>
          (if dtype c = Number \<and> \<not> isnull (mean_of L (cells c))
           then cells c' = fillna (mean_of L (cells c)) (cells c) \<and>
                list_all (\<lambda>v. \<not> isnull v) (cells c')
           else c' = c)"
    if c: "get_col d col = Some c" for col c
  proof -
    from c get [of col] have g': "get_col ?d' col = Some (?h c)" by simp
    show ?thesis
    proof (cases "dtype c = Number \<and> \<not> isnull (mean_of L (cells c))")
      case True
      with g' show ?thesis by (simp add: fillna_value)
    next
      case False
      then have "?h c = c" by (auto simp: isnull_def fillna_Null)
      with g' False show ?thesis by auto
    qed
  qed
  with res names show ?thesis by blast
qed

theorem fill_mean_no_null_witness:
  "wf frame_gaps \<and>
   fill_missing_values_numeric exact frame_gaps ''mean'' None =
     Inr \<lparr>index = [0, 1, 2],
          cols = [(''x'', \<lparr>dtype = Number, cells = [Num 1, Num (5 / 2), Num 4]\<rparr>),
                  (''y'', \<lparr>dtype = Object, cells = [Null, Str ''a'', Str ''nan'']\<rparr>),
                  (''z'', \<lparr>dtype = Number, cells = [Null, Null, Null]\<rparr>)]\<rparr> \<and>
   mean_of exact [Num 1, Null, Num 4] = Num (5 / 2) \<and>
   mean_of exact [Null, Null, Null] = Null"
proof -
  have w: "wf frame_gaps"
    by (simp add: wf_def frame_gaps_def column_ok_def)
  have e: "fill_missing_values_numeric exact frame_gaps ''mean'' None =
     Inr \<lparr>index = [0, 1, 2],
          cols = [(''x'', \<lparr>dtype = Number, cells = [Num 1, Num (5 / 2), Num 4]\<rparr>),
                  (''y'', \<lparr>dtype = Object, cells = [Null, Str ''a'', Str ''nan'']\<rparr>),
                  (''z'', \<lparr>dtype = Number, cells = [Null, Null, Null]\<rparr>)]\<rparr>"
    by code_simp
  have m: "mean_of exact [Num 1, Null, Num 4] = Num (5 / 2)"
    "mean_of exact [Null, Null, Null] = Null"
    by code_simp+
  from fill_mean_no_null [OF w, of exact] w e m show ?thesis by simp
qed

subsection \<open>remove_nan_categorical\<close>

lemma map2_left: "length xs = length ys \<Longrightarrow> map2 (\<lambda>x y. f x) xs ys = map f xs"
  by (induction xs ys rule: list_induct2) simp_all

lemma map2_right: "length xs = length ys \<Longrightarrow> map2 (\<lambda>x y. f y) xs ys = map f ys"
  by (induction xs ys rule: list_induct2) simp_all

lemma column_of_rows:
  "list_all (column_ok n) (map snd ncs) \<Longrightarrow> map_of ncs col = Some c \<Longrightarrow>
   map (\<lambda>r. map_of (zip (map fst ncs) r) col) (rows_of n ncs) = map Some (cells c)"
proof (induction ncs)
  case Nil
  then show ?case by simp
next
  case (Cons nc ncs)
  let ?xs = "cells (snd nc)"
  let ?ys = "rows_of n ncs"
  from Cons.prems(1) have a: "column_ok n (snd nc)"
    and b: "list_all (column_ok n) (map snd ncs)" by simp_all
  from a length_rows_of_eq [OF b] have len: "length ?xs = length ?ys"
    by (simp add: column_ok_def)
  have m: "map (\<lambda>r. map_of (zip (map fst (nc # ncs)) r) col) (rows_of n (nc # ncs))
        = map2 (\<lambda>x y. if fst nc = col then Some x else map_of (zip (map fst ncs) y) col) ?xs ?ys"
    by (simp add: case_prod_beta)
  show ?case
  proof (cases "fst nc = col")
    case True
    with Cons.prems(2) have c: "snd nc = c" by (cases nc) simp
    have "map2 (\<lambda>x y. if fst nc = col then Some x else map_of (zip (map fst ncs) y) col) ?xs ?ys
          = map2 (\<lambda>x y. Some x) ?xs ?ys"
      using True by simp
    also have "\<dots> = map Some ?xs" by (rule map2_left [OF len])
    finally show ?thesis unfolding m c .
  next
    case False
    with Cons.prems(2) have "map_of ncs col = Some c" by (cases nc) simp
    with b have ih: "map (\<lambda>r. map_of (zip (map fst ncs) r) col) ?ys = map Some (cells c)"
      by (rule Cons.IH)
    have "map2 (\<lambda>x y. if fst nc = col then Some x else map_of (zip (map fst ncs) y) col) ?xs ?ys
          = map2 (\<lambda>x y. map_of (zip (map fst ncs) y) col) ?xs ?ys"
      using False by simp
    also have "\<dots> = map (\<lambda>r. map_of (zip (map fst ncs) r) col) ?ys"
      by (rule map2_right [OF len])
    finally show ?thesis unfolding m ih .
  qed
qed

lemma select_filter: "select (map p xs) xs = filter p xs"
  by (induction xs) simp_all

lemma select_column:
  assumes "wf d" "get_col d col = Some c"
  shows "select (map (\<lambda>v. v \<noteq> Str ''nan'') (cells c)) (rows d)
         = filter (\<lambda>r. cell_at d r col \<noteq> Some (Str ''nan'')) (rows d)"
proof -
  from assms have eq: "map (\<lambda>r. cell_at d r col) (rows d) = map Some (cells c)"
    by (simp add: cell_at_def rows_def wf_def get_col_def column_of_rows)
  have "map (\<lambda>v. v \<noteq> Str ''nan'') (cells c)
        = map (\<lambda>x. x \<noteq> Some (Str ''nan'')) (map Some (cells c))"
    by simp
  also have "\<dots> = map (\<lambda>x. x \<noteq> Some (Str ''nan'')) (map (\<lambda>r. cell_at d r col) (rows d))"
    by (simp only: eq)
  also have "\<dots> = map (\<lambda>r. cell_at d r col \<noteq> Some (Str ''nan'')) (rows d)"
    by simp
  finally show ?thesis by (simp add: select_filter)
qed

lemma names_take_rows: "map fst (cols (take_rows m d)) = map fst (cols d)"
  by (simp add: take_rows_def comp_def)

lemma drop_nan_rows_rows:
  "wf d \<Longrightarrow> set ns \<subseteq> fst ` set (cols d) \<Longrightarrow>
   \<exists>d'. drop_nan_rows ns d = Inr d' \<and> map fst (cols d') = map fst (cols d) \<and>
        rows d' = filter (\<lambda>r. list_all (\<lambda>col. cell_at d r col \<noteq> Some (Str ''nan'')) ns) (rows d)"
proof (induction ns arbitrary: d)
  case Nil
  then show ?case by simp
next
  case (Cons n ns)
  from Cons.prems(2) obtain c where "(n, c) \<in> set (cols d)" by auto
  with Cons.prems(1) have g: "get_col d n = Some c" by (simp add: get_col_def wf_def)
  let ?d1 = "take_rows (map (\<lambda>v. v \<noteq> Str ''nan'') (cells c)) d"
  have names: "map fst (cols ?d1) = map fst (cols d)" by (rule names_take_rows)
  have at: "cell_at ?d1 = cell_at d" by (simp add: cell_at_def names fun_eq_iff)
  have "set ns \<subseteq> fst ` set (cols ?d1)"
    using Cons.prems(2) names by (metis list.set_map set_subset_Cons subset_trans)
  with Cons.IH [of ?d1] Cons.prems(1) obtain d' where d':
    "drop_nan_rows ns ?d1 = Inr d'" "map fst (cols d') = map fst (cols ?d1)"
    "rows d' = filter (\<lambda>r. list_all (\<lambda>col. cell_at ?d1 r col \<noteq> Some (Str ''nan'')) ns) (rows ?d1)"
    using wf_take_rows by blast
  have "rows ?d1 = filter (\<lambda>r. cell_at d r n \<noteq> Some (Str ''nan'')) (rows d)"
    using select_column [OF Cons.prems(1) g] by (simp add: rows_take_rows)
  with d'(3) have "rows d' =
      filter (\<lambda>r. list_all (\<lambda>col. cell_at d r col \<noteq> Some (Str ''nan'')) (n # ns)) (rows d)"
    by (simp add: at)
  with d'(1,2) g names show ?case by simp
qed

text \<open>
  C3 as stated fails. A row whose categorical column holds a missing value is kept: of
  the three rows of this frame only the one with the string \<open>'nan'\<close> in
  \<open>y\<close> is removed, and the row with the missing \<open>y\<close> is in the
  result.
\<close>

theorem remove_nan_categorical_counterexample:
  "get_categorical_columns frame_gaps = [''y''] \<and>
   remove_nan_categorical frame_gaps =
     Inr \<lparr>index = [0, 1],
          cols = [(''x'', \<lparr>dtype = Number, cells = [Num 1, Null]\<rparr>),
                  (''y'', \<lparr>dtype = Object, cells = [Null, Str ''a'']\<rparr>),
                  (''z'', \<lparr>dtype = Number, cells = [Null, Null]\<rparr>)]\<rparr>"
  by code_simp

text \<open>
  C3, for the placeholder. \<open>remove_nan_categorical\<close> returns the frame with the same
  columns and exactly the rows, in their order, that hold the string \<open>'nan'\<close> in no
  categorical column.
\<close>

theorem remove_nan_categorical_rows:
  assumes "wf d"
  shows "\<exists>d'. remove_nan_categorical d = Inr d' \<and> map fst (cols d') = map fst (cols d) \<and>
              rows d' = filter (placeholder_free d) (rows d)"
proof -
  have "set (get_categorical_columns d) \<subseteq> fst ` set (cols d)"
    by (auto simp: get_categorical_columns_def)
  moreover have "placeholder_free d =
      (\<lambda>r. list_all (\<lambda>col. cell_at d r col \<noteq> Some (Str ''nan'')) (get_categorical_columns d))"
    by (simp add: fun_eq_iff placeholder_free_def)
  ultimately show ?thesis
    using drop_nan_rows_rows [OF assms, of "get_categorical_columns d"]
    by (simp add: remove_nan_categorical_def)
qed

theorem remove_nan_categorical_rows_witness:
  "wf frame_placeholder \<and>
   remove_nan_categorical frame_placeholder =
     Inr \<lparr>index = [1, 2],
          cols = [(''name'', \<lparr>dtype = Object, cells = [Str ''b'', Str ''c'']\<rparr>),
                  (''start'', \<lparr>dtype = Datetime, cells = [Null, Time 7]\<rparr>),
                  (''n'', \<lparr>dtype = Number, cells = [Num 2, Num 3]\<rparr>)]\<rparr> \<and>
   filter (placeholder_free frame_placeholder) (rows frame_placeholder) =
     [[Str ''b'', Null, Num 2], [Str ''c'', Time 7, Num 3]]"
proof -
  have w: "wf frame_placeholder"
    by (simp add: wf_def frame_placeholder_def column_ok_def)
  have r: "remove_nan_categorical frame_placeholder =
     Inr \<lparr>index = [1, 2],
          cols = [(''name'', \<lparr>dtype = Object, cells = [Str ''b'', Str ''c'']\<rparr>),
                  (''start'', \<lparr>dtype = Datetime, cells = [Null, Time 7]\<rparr>),
                  (''n'', \<lparr>dtype = Number, cells = [Num 2, Num 3]\<rparr>)]\<rparr>"
    by code_simp
  from remove_nan_categorical_rows [OF w] r
  have "filter (placeholder_free frame_placeholder) (rows frame_placeholder) =
     [[Str ''b'', Null, Num 2], [Str ''c'', Time 7, Num 3]]"
    by (auto simp: rows_def)
  with w r show ?thesis by simp
qed

subsection \<open>Quantiles\<close>

lemma interp_bounds:
  assumes "sorted xs" "0 \<le> h" "h \<le> of_nat (length xs - 1)" "xs \<noteq> []"
  shows "xs ! nat \<lfloor>h\<rfloor> \<le> interp xs h \<and>
         interp xs h \<le> xs ! min (nat \<lfloor>h\<rfloor> + 1) (length xs - 1)"
proof -
  let ?i = "nat \<lfloor>h\<rfloor>"
  let ?j = "min (?i + 1) (length xs - 1)"
  let ?g = "h - of_int \<lfloor>h\<rfloor>"
  have "\<lfloor>h\<rfloor> \<le> int (length xs - 1)" using assms(3) by (simp add: floor_le_iff)
  then have i: "?i \<le> length xs - 1" by simp
  then have ij: "?i \<le> ?j" by simp
  from assms(4) have pos: "0 < length xs" by simp
  have j: "?j < length xs" using pos by (auto simp: min_def)
  from assms(1) ij j have ab: "xs ! ?i \<le> xs ! ?j" by (rule sorted_nth_mono)
  have g: "0 \<le> ?g" "?g \<le> 1" by linarith+
  have "0 \<le> (xs ! ?j - xs ! ?i) * ?g" using ab g(1) by simp
  moreover have "(xs ! ?j - xs ! ?i) * ?g \<le> (xs ! ?j - xs ! ?i) * 1"
    using ab g(2) by (intro mult_left_mono) simp_all
  ultimately show ?thesis by (simp add: interp_def Let_def)
qed

lemma interp_mono:
  assumes "sorted xs" "0 \<le> h" "h \<le> h'" "h' \<le> of_nat (length xs - 1)" "xs \<noteq> []"
  shows "interp xs h \<le> interp xs h'"
proof -
  let ?i = "nat \<lfloor>h\<rfloor>" and ?i' = "nat \<lfloor>h'\<rfloor>"
  have fl: "\<lfloor>h\<rfloor> \<le> \<lfloor>h'\<rfloor>" using assms(3) by (rule floor_mono)
  have f0: "0 \<le> \<lfloor>h\<rfloor>" using assms(2) by simp
  have "\<lfloor>h'\<rfloor> \<le> int (length xs - 1)" using assms(4) by (simp add: floor_le_iff)
  then have i': "?i' < length xs" using assms(5) by (cases xs) simp_all
  show ?thesis
  proof (cases "\<lfloor>h\<rfloor> = \<lfloor>h'\<rfloor>")
    case True
    let ?j = "min (?i + 1) (length xs - 1)"
    have "?i \<le> ?j" using i' True by simp
    moreover from assms(5) have "0 < length xs" by simp
    then have "?j < length xs" by (auto simp: min_def)
    ultimately have ab: "xs ! ?i \<le> xs ! ?j" using assms(1) by (simp add: sorted_nth_mono)
    have "h - of_int \<lfloor>h\<rfloor> \<le> h' - of_int \<lfloor>h\<rfloor>" using assms(3) by simp
    with ab have "(xs ! ?j - xs ! ?i) * (h - of_int \<lfloor>h\<rfloor>)
                 \<le> (xs ! ?j - xs ! ?i) * (h' - of_int \<lfloor>h\<rfloor>)"
      by (intro mult_left_mono) simp_all
    then show ?thesis using True by (simp add: interp_def Let_def)
  next
    case False
    with fl have "\<lfloor>h\<rfloor> < \<lfloor>h'\<rfloor>" by simp
    with f0 have lt: "?i + 1 \<le> ?i'" by linarith
    have "interp xs h \<le> xs ! min (?i + 1) (length xs - 1)"
      using interp_bounds [of xs h] assms by simp
    also have "\<dots> \<le> xs ! ?i'"
      using assms(1) lt i' by (intro sorted_nth_mono) simp_all
    also have "\<dots> \<le> interp xs h'"
      using interp_bounds [of xs h'] assms by simp
    finally show ?thesis .
  qed
qed

lemma quartiles_ordered:
  assumes "quantile (1 / 4) vs = Some q1" "quantile (3 / 4) vs = Some q3"
  shows "q1 \<le> q3"
proof -
  let ?xs = "sort (nums vs)"
  from assms(1) have ne: "?xs \<noteq> []"
    by (auto simp: quantile_def Let_def split: if_splits)
  with assms have q: "q1 = interp ?xs (of_nat (length ?xs - 1) * (1 / 4))"
    "q3 = interp ?xs (of_nat (length ?xs - 1) * (3 / 4))"
    by (simp_all add: quantile_def Let_def)
  have "interp ?xs (of_nat (length ?xs - 1) * (1 / 4))
        \<le> interp ?xs (of_nat (length ?xs - 1) * (3 / 4))"
    using ne by (intro interp_mono) simp_all
  with q show ?thesis by simp
qed

lemma bounds_ordered:
  assumes "lower_bound vs = Some lo" "upper_bound vs = Some hi"
  shows "lo \<le> hi"
proof -
  from assms obtain q1 q3 where q: "quantile (1 / 4) vs = Some q1" "quantile (3 / 4) vs = Some q3"
    "lo = q1 - 3 / 2 * (q3 - q1)" "hi = q3 + 3 / 2 * (q3 - q1)"
    by (auto simp: lower_bound_def upper_bound_def split: option.splits)
  from quartiles_ordered [OF q(1,2)] have "0 \<le> 3 / 2 * (q3 - q1)" "q1 \<le> q3" by simp_all
  with q(3,4) show ?thesis by linarith
qed

lemma bounds_defined:
  assumes "Num r \<in> set vs"
  shows "\<exists>lo hi. lower_bound vs = Some lo \<and> upper_bound vs = Some hi"
proof -
  have "r \<in> set (nums vs)" using assms
  proof (induction vs)
    case Nil
    then show ?case by simp
  next
    case (Cons v vs)
    then show ?case by (cases v) auto
  qed
  then have "sort (nums vs) \<noteq> []" by (metis empty_iff empty_set set_sort)
  then show ?thesis
    by (simp add: lower_bound_def upper_bound_def quantile_def Let_def)
qed

subsection \<open>Clipping to the bounds\<close>

lemma np_where_map: "np_where (map p vs) x (map f vs) = map (\<lambda>v. if p v then x else f v) vs"
  by (induction vs) (simp_all add: np_where_def)


lemma np_where_same: "np_where (map p vs) x vs = map (\<lambda>v. if p v then x else v) vs"
  using np_where_map [of p vs x "\<lambda>v. v"] by simp



text \<open>Without rounding and overflow the bounds of a column that holds a finite number
  are numbers, the lower one below the upper one.\<close>

lemma exact_bounds:
  "lower_of exact vs = cell_of (lower_bound vs) \<and> upper_of exact vs = cell_of (upper_bound vs)"
  by (simp add: lower_of_def upper_of_def lower_bound_def upper_bound_def exact_def
      cell_of_def ext_sub_def split: option.splits)

lemma exact_bounds_ordered:
  assumes "Num r \<in> set vs"
  shows "fle (lower_of exact vs) (upper_of exact vs)"
proof -
  from bounds_defined [OF assms] obtain lo hi where
    b: "lower_bound vs = Some lo" "upper_bound vs = Some hi" by blast
  from bounds_ordered [OF b] b show ?thesis
    by (simp add: exact_bounds cell_of_def fle_def)
qed








text \<open>
  The condition on the bounds is needed. When the quartiles overflow, the lower bound is
  the positive and the upper bound the negative infinity, every entry is replaced twice,
  and the column comes back as two negative infinities, below the lower bound.
\<close>

lemma handle_outliers_overflow:
  "handle_outliers overflowing frame_large ''x'' ''IQR'' =
     Inr \<lparr>index = [0, 1], cols = [(''x'', \<lparr>dtype = Number, cells = [NInf, NInf]\<rparr>)]\<rparr> \<and>
   lower_of overflowing [Num (- big), Num big] = PInf \<and>
   upper_of overflowing [Num (- big), Num big] = NInf \<and>
   \<not> fle PInf NInf"
  by code_simp

end
